theory Spec2Isabelle
  imports Main "HOL-Library.FSet" "HOL-Library.Sublist"
begin

section \<open>The server list endpoint of game\_chat (server/views.py)\<close>

text \<open>
  The repository's only source file is \<^verbatim>\<open>game_chat/server/views.py\<close>: the class
  \<^verbatim>\<open>ServerListViewSet\<close> with the class attribute
  \<^verbatim>\<open>queryset = Server.objects.all()\<close> and the method \<^verbatim>\<open>list(self, request)\<close>.
  The method reads five query parameters, narrows \<^verbatim>\<open>self.queryset\<close> step by step
  and hands the outcome to \<^verbatim>\<open>ServerSerializer\<close>.

  The embedding keeps three things apart:
  \<^item> the stored rows of the \<^verbatim>\<open>Server\<close> table (\<open>storage\<close>), which the handler reads;
  \<^item> the query description held in \<^verbatim>\<open>self.queryset\<close> (\<open>queryset\<close>), which each step
    replaces by a narrowed copy and which touches the storage only when it is
    evaluated (\<^verbatim>\<open>exists()\<close>, iteration by the serializer);
  \<^item> the exceptions, as values of the type \<open>error\<close>.
\<close>

subsection \<open>Data\<close>

type_synonym user_id = int

text \<open>
  Modelled from the spec: the model class \<^verbatim>\<open>Server\<close> (models.py is not among the
  sources). Section 3 of the specification gives a server record an integer
  identifier, a name, a category referred to by its name, and a set of member
  references. The member relation is a set: a user is a member of a server or not.
\<close>

record server =
  server_id :: int
  name :: string
  category :: string
  member :: "user_id fset"

text \<open>
  \<^verbatim>\<open>request.user\<close> is either the anonymous user (\<^verbatim>\<open>is_authenticated\<close> false,
  \<^verbatim>\<open>id\<close> \<^verbatim>\<open>None\<close>) or a stored user with its identifier.
\<close>

datatype user = AnonymousUser | User user_id

fun is_authenticated :: "user \<Rightarrow> bool" where
  "is_authenticated AnonymousUser = False"
| "is_authenticated (User u) = True"

fun user_pk :: "user \<Rightarrow> user_id option" where
  "user_pk AnonymousUser = None"
| "user_pk (User u) = Some u"

text \<open>
  \<^verbatim>\<open>request.query_params.get(k)\<close> is \<^verbatim>\<open>None\<close> for a key that is not in the query
  string and the key's string value otherwise.
\<close>

record request =
  query_params :: "string \<rightharpoonup> string"
  user :: user

text \<open>
  The exceptions \<^verbatim>\<open>list\<close> can end with. The first two are the ones the method raises
  itself. \<open>ValueError\<close> is what \<^verbatim>\<open>int(...)\<close> raises on a string that is no
  integer literal. The last two are raised inside the query builder:
  \<open>NegativeIndexing\<close> by a slice with a negative bound ("Negative indexing is not
  supported.") and \<open>FilterAfterSlice\<close> by \<^verbatim>\<open>filter\<close> on a sliced query ("Cannot filter
  a query once a slice has been taken."). The exception class of these two depends
  on the version of the framework (an assertion failure in older ones), so they are
  named after what they report; the \<^verbatim>\<open>except ValueError\<close> clause of \<^verbatim>\<open>list\<close> is
  not reached by \<open>NegativeIndexing\<close>, which is raised outside the \<^verbatim>\<open>try\<close> block, and
  does not catch \<open>FilterAfterSlice\<close>, which is never a \<^verbatim>\<open>ValueError\<close>.
\<close>

datatype error =
    AuthenticationFailed
  | ValidationError string
  | ValueError
  | NegativeIndexing
  | FilterAfterSlice

text \<open>The two kinds of error that are answered to the caller as such.\<close>

fun user_facing :: "error \<Rightarrow> bool" where
  "user_facing AuthenticationFailed = True"
| "user_facing (ValidationError d) = True"
| "user_facing e = False"

subsection \<open>The query builder\<close>

text \<open>
  A query set is a description of a query, not its rows: the conditions added by
  \<^verbatim>\<open>filter\<close>, whether \<^verbatim>\<open>annotate(num_members=Count('member'))\<close> was applied, and the
  upper bound set by a slice \<^verbatim>\<open>[:n]\<close>. Each builder call returns a new description.
\<close>

datatype lookup =
    Category_name string
  | Member "user_id option"
  | Id int

record queryset =
  lookups :: "lookup list"
  num_members_annotated :: bool
  high_mark :: "nat option"

definition objects_all :: queryset where
  "objects_all = \<lparr>lookups = [], num_members_annotated = False, high_mark = None\<rparr>"

definition is_sliced :: "queryset \<Rightarrow> bool" where
  "is_sliced q = (high_mark q \<noteq> None)"

text \<open>
  \<^verbatim>\<open>filter\<close> refuses a sliced query before it looks at its arguments; the value
  given for \<^verbatim>\<open>id\<close> is then converted with \<^verbatim>\<open>int\<close>, whose \<^verbatim>\<open>ValueError\<close> leaves
  \<^verbatim>\<open>filter\<close>. Python's \<^verbatim>\<open>int\<close> on a string is the parameter \<open>parse_int\<close> of the
  embedding, \<open>None\<close> standing for \<^verbatim>\<open>ValueError\<close>: every theorem holds for whatever
  strings \<^verbatim>\<open>int\<close> accepts.
\<close>

definition filter_qs :: "lookup \<Rightarrow> queryset \<Rightarrow> error + queryset" where
  "filter_qs l q =
     (if is_sliced q then Inl FilterAfterSlice
      else Inr (q\<lparr>lookups := lookups q @ [l]\<rparr>))"

definition filter_id :: "(string \<Rightarrow> int option) \<Rightarrow> string \<Rightarrow> queryset \<Rightarrow> error + queryset" where
  "filter_id parse_int s q =
     (if is_sliced q then Inl FilterAfterSlice
      else case parse_int s of
             None \<Rightarrow> Inl ValueError
           | Some i \<Rightarrow> Inr (q\<lparr>lookups := lookups q @ [Id i]\<rparr>))"

definition annotate_num_members :: "queryset \<Rightarrow> queryset" where
  "annotate_num_members q = q\<lparr>num_members_annotated := True\<rparr>"

definition slice_upto :: "int \<Rightarrow> queryset \<Rightarrow> error + queryset" where
  "slice_upto n q =
     (if n < 0 then Inl NegativeIndexing
      else Inr (q\<lparr>high_mark :=
                  Some (case high_mark q of None \<Rightarrow> nat n | Some h \<Rightarrow> min h (nat n))\<rparr>))"

text \<open>
  Evaluation against the stored rows: the rows that satisfy every condition, in
  the order of the storage, each with its member count when annotated, cut at the
  upper bound. A condition \<^verbatim>\<open>member=None\<close> selects the servers without members.
  \<^verbatim>\<open>Count('member')\<close> counts the rows of the member relation that belong to the
  server, which is the size of its member set (0 for a server without members).
  Together with a condition on \<^verbatim>\<open>member\<close> the count would range over the rows
  that satisfy the condition only; \<open>by_user_never_filters\<close> below shows that
  \<^verbatim>\<open>list\<close> never adds such a condition, so the embedding leaves this out.
\<close>

fun matches :: "server \<Rightarrow> lookup \<Rightarrow> bool" where
  "matches s (Category_name c) = (category s = c)"
| "matches s (Member None) = (member s = {||})"
| "matches s (Member (Some u)) = (u |\<in>| member s)"
| "matches s (Id i) = (server_id s = i)"

record row =
  obj :: server
  num_members :: "nat option"

definition annotated_row :: "bool \<Rightarrow> server \<Rightarrow> row" where
  "annotated_row a s = \<lparr>obj = s, num_members = (if a then Some (fcard (member s)) else None)\<rparr>"

definition limit :: "nat option \<Rightarrow> 'a list \<Rightarrow> 'a list" where
  "limit h xs = (case h of None \<Rightarrow> xs | Some n \<Rightarrow> take n xs)"

definition selected :: "server list \<Rightarrow> queryset \<Rightarrow> server list" where
  "selected db q = limit (high_mark q) (filter (\<lambda>s. list_all (matches s) (lookups q)) db)"

definition fetch :: "server list \<Rightarrow> queryset \<Rightarrow> row list" where
  "fetch db q = map (annotated_row (num_members_annotated q)) (selected db q)"

definition exists_qs :: "server list \<Rightarrow> queryset \<Rightarrow> bool" where
  "exists_qs db q = (fetch db q \<noteq> [])"

subsection \<open>The serializer\<close>

text \<open>
  Modelled from the spec: \<^verbatim>\<open>ServerSerializer\<close> (serializer.py is not among the
  sources). Sections 4.1 and 6 of the specification: each record becomes a view with
  the fields \<^verbatim>\<open>id\<close>, \<^verbatim>\<open>name\<close>, \<^verbatim>\<open>category\<close>, and the member count only if the
  context flag \<^verbatim>\<open>num_members\<close> is true.
\<close>

record server_view =
  view_id :: int
  view_name :: string
  view_category :: string
  view_num_members :: "nat option"

definition ServerSerializer :: "bool \<Rightarrow> row \<Rightarrow> server_view" where
  "ServerSerializer flag r =
     \<lparr>view_id = server_id (obj r), view_name = name (obj r),
      view_category = category (obj r),
      view_num_members = (if flag then num_members r else None)\<rparr>"

subsection \<open>The handler\<close>

text \<open>
  The state the method runs in: the stored rows and the attribute
  \<^verbatim>\<open>self.queryset\<close>. The framework makes a new view object for every request; the
  first read of \<^verbatim>\<open>self.queryset\<close> in it finds the class attribute
  \<^verbatim>\<open>Server.objects.all()\<close>. \<open>new_view\<close> takes this query as not yet evaluated, as it
  is in a process that has not served a request without parameters. Such a request
  iterates the class attribute itself, which then keeps its rows: from then on a
  request that adds no condition and no annotation before the slice or the
  serializer (no parameter at all, or \<^verbatim>\<open>qty\<close> alone) is answered from the kept rows,
  and a slice of them is a plain list, on which \<^verbatim>\<open>filter\<close> fails in another way
  (an unhandled error, as \<open>FilterAfterSlice\<close> is). A request with a non-empty
  \<^verbatim>\<open>category\<close>, with \<^verbatim>\<open>with_num_members=true\<close> or with a non-empty \<^verbatim>\<open>by_serverid\<close>
  and no \<^verbatim>\<open>qty\<close> builds a new query first and reads the storage. The statements
  about \<open>new_view\<close> below are statements about the query that has not been
  evaluated.
\<close>

record view =
  storage :: "server list"
  queryset :: queryset

definition new_view :: "server list \<Rightarrow> view" where
  "new_view db = \<lparr>storage = db, queryset = objects_all\<rparr>"

text \<open>
  A statement maps the state to an outcome and the state it leaves; an exception
  ends the method, so the statements after it do not run.
\<close>

type_synonym 'a stmt = "view \<Rightarrow> (error + 'a) \<times> view"

definition skip :: "unit stmt" where
  "skip w = (Inr (), w)"

definition raise :: "error \<Rightarrow> 'a stmt" where
  "raise e w = (Inl e, w)"

definition seq :: "unit stmt \<Rightarrow> 'a stmt \<Rightarrow> 'a stmt" where
  "seq f g w = (case f w of (Inl e, w') \<Rightarrow> (Inl e, w') | (Inr u, w') \<Rightarrow> g w')"

text \<open>\<^verbatim>\<open>self.queryset = <expression>\<close>: nothing is assigned when the expression raises.\<close>

definition assign_queryset :: "(queryset \<Rightarrow> error + queryset) \<Rightarrow> unit stmt" where
  "assign_queryset f w =
     (case f (queryset w) of
        Inl e \<Rightarrow> (Inl e, w)
      | Inr q \<Rightarrow> (Inr (), w\<lparr>queryset := q\<rparr>))"

text \<open>Truth value of a parameter read with \<^verbatim>\<open>get\<close>: false for \<^verbatim>\<open>None\<close> and for \<^verbatim>\<open>''\<close>.\<close>

fun truthy :: "string option \<Rightarrow> bool" where
  "truthy None = False"
| "truthy (Some s) = (s \<noteq> [])"

definition not_found :: "string \<Rightarrow> string" where
  "not_found by_serverid = ''Server with id '' @ by_serverid @ '' not found''"

text \<open>Lines 53-54.\<close>

definition category_step :: "string option \<Rightarrow> unit stmt" where
  "category_step category_param =
     (case category_param of
        None \<Rightarrow> skip
      | Some c \<Rightarrow> if c \<noteq> [] then assign_queryset (filter_qs (Category_name c)) else skip)"

text \<open>Lines 57-60, with the inner condition as the source has it.\<close>

definition by_user_step :: "bool \<Rightarrow> request \<Rightarrow> unit stmt" where
  "by_user_step by_user request =
     (if by_user then
        (if by_user \<and> \<not> is_authenticated (user request) then
           (let user_id = user_pk (user request)
            in assign_queryset (filter_qs (Member user_id)))
         else skip)
      else skip)"

text \<open>Lines 63-64.\<close>

definition num_members_step :: "bool \<Rightarrow> unit stmt" where
  "num_members_step with_num_members =
     (if with_num_members then assign_queryset (\<lambda>q. Inr (annotate_num_members q)) else skip)"

text \<open>Lines 67-68: \<^verbatim>\<open>int(qty)\<close> is evaluated first, then the slice.\<close>

definition qty_step :: "(string \<Rightarrow> int option) \<Rightarrow> string option \<Rightarrow> unit stmt" where
  "qty_step parse_int qty =
     (case qty of
        None \<Rightarrow> skip
      | Some q \<Rightarrow>
          if q \<noteq> [] then
            (case parse_int q of
               None \<Rightarrow> raise ValueError
             | Some n \<Rightarrow> assign_queryset (slice_upto n))
          else skip)"

text \<open>
  Lines 71-79: the \<^verbatim>\<open>try\<close> block turns a \<^verbatim>\<open>ValueError\<close> of \<^verbatim>\<open>filter\<close> into the
  \<^verbatim>\<open>ValidationError\<close>; any other exception of \<^verbatim>\<open>filter\<close> passes, and so does the
  \<^verbatim>\<open>ValidationError\<close> raised inside the block after the assignment.
\<close>

definition by_serverid_step :: "(string \<Rightarrow> int option) \<Rightarrow> string option \<Rightarrow> unit stmt" where
  "by_serverid_step parse_int by_serverid =
     (case by_serverid of
        None \<Rightarrow> skip
      | Some b \<Rightarrow>
          if b \<noteq> [] then
            (\<lambda>w. case filter_id parse_int b (queryset w) of
                   Inl ValueError \<Rightarrow> (Inl (ValidationError (not_found b)), w)
                 | Inl e \<Rightarrow> (Inl e, w)
                 | Inr q \<Rightarrow>
                     (let w' = w\<lparr>queryset := q\<rparr>
                      in if \<not> exists_qs (storage w') (queryset w')
                         then (Inl (ValidationError (not_found b)), w')
                         else (Inr (), w')))
          else skip)"

text \<open>Lines 82-84.\<close>

definition respond :: "bool \<Rightarrow> server_view list stmt" where
  "respond with_num_members w =
     (Inr (map (ServerSerializer with_num_members) (fetch (storage w) (queryset w))), w)"

text \<open>\<^verbatim>\<open>ServerListViewSet.list\<close>, lines 42-84.\<close>

definition list :: "(string \<Rightarrow> int option) \<Rightarrow> request \<Rightarrow> server_view list stmt" where
  "list parse_int request =
     (let category = query_params request ''category'';
          qty = query_params request ''qty'';
          by_user = (query_params request ''by_user'' = Some ''true'');
          by_serverid = query_params request ''by_serverid'';
          with_num_members = (query_params request ''with_num_members'' = Some ''true'')
      in if by_user \<and> \<not> is_authenticated (user request) then raise AuthenticationFailed
         else seq (category_step category)
             (seq (by_user_step by_user request)
             (seq (num_members_step with_num_members)
             (seq (qty_step parse_int qty)
             (seq (by_serverid_step parse_int by_serverid)
                  (respond with_num_members))))))"

subsection \<open>Auxiliary definitions\<close>

text \<open>The request without one of its query parameters.\<close>

definition without :: "string \<Rightarrow> request \<Rightarrow> request" where
  "without k r = r\<lparr>query_params := (query_params r)(k := None)\<rparr>"

text \<open>
  Two names for the proofs: the query description that a new view holds after the
  steps for \<^verbatim>\<open>category\<close>, \<^verbatim>\<open>by_user\<close> and \<^verbatim>\<open>with_num_members\<close> (lemma
  \<open>list_front\<close>), and the rest of the method from the \<^verbatim>\<open>qty\<close> step on.
\<close>

definition prepared :: "string option \<Rightarrow> bool \<Rightarrow> queryset" where
  "prepared c wn =
     \<lparr>lookups = (case c of None \<Rightarrow> [] | Some x \<Rightarrow> if x \<noteq> [] then [Category_name x] else []),
      num_members_annotated = wn, high_mark = None\<rparr>"

definition tail :: "(string \<Rightarrow> int option) \<Rightarrow> request \<Rightarrow> server_view list stmt" where
  "tail p r =
     seq (qty_step p (query_params r ''qty''))
    (seq (by_serverid_step p (query_params r ''by_serverid''))
         (respond (query_params r ''with_num_members'' = Some ''true'')))"

subsection \<open>Concrete inputs\<close>

text \<open>
  The examples below need one concrete reading of numerals for the parameter
  \<open>parse_int\<close>: \<open>dec_int\<close> reads an optional sign followed by decimal digits, as
  \<^verbatim>\<open>int\<close> does on such strings, and rejects the other strings used in the examples
  (\<^verbatim>\<open>''\<close> and \<^verbatim>\<open>'abc'\<close>), on which \<^verbatim>\<open>int\<close> raises \<^verbatim>\<open>ValueError\<close>.
\<close>

definition digit_of :: "char \<Rightarrow> nat option" where
  "digit_of c =
     (let k = (of_char c :: nat) in if 48 \<le> k \<and> k \<le> 57 then Some (k - 48) else None)"

fun digits :: "nat \<Rightarrow> string \<Rightarrow> nat option" where
  "digits acc [] = Some acc"
| "digits acc (c # cs) =
     (case digit_of c of None \<Rightarrow> None | Some d \<Rightarrow> digits (10 * acc + d) cs)"

definition dec_int :: "string \<Rightarrow> int option" where
  "dec_int s =
     (case s of
        [] \<Rightarrow> None
      | c # cs \<Rightarrow>
          if c = CHR ''-'' then
            (if cs = [] then None else map_option (\<lambda>n. - int n) (digits 0 cs))
          else if c = CHR ''+'' then
            (if cs = [] then None else map_option int (digits 0 cs))
          else map_option int (digits 0 s))"

text \<open>
  Three stored servers: users 7 and 8 are members of the first, user 8 of the
  second, nobody of the third.
\<close>

definition example_servers :: "server list" where
  "example_servers =
     [\<lparr>server_id = 1, name = ''lobby'', category = ''gaming'', member = {|7, 8|}\<rparr>,
      \<lparr>server_id = 2, name = ''raid'', category = ''gaming'', member = {|8|}\<rparr>,
      \<lparr>server_id = 3, name = ''jazz'', category = ''music'', member = {||}\<rparr>]"

subsection \<open>The processing order of the specification\<close>

text \<open>
  Section 4.1 of the specification lists eight steps on a working set. The
  following definitions follow its words, step by step, on the working set as a
  list of records; they are compared with \<open>list\<close> below. A parameter is taken as
  present when it is given and not empty. Step 6 fails with the error of the
  conversion when \<^verbatim>\<open>qty\<close> is no integer (the specification calls this the crash of
  the original) and otherwise takes the first \<^verbatim>\<open>qty\<close> records; step 7 keeps the
  record with the identifier and fails with the validation error when the
  identifier is no integer or no record of the working set has it.
\<close>

definition spec_truncate ::
  "(string \<Rightarrow> int option) \<Rightarrow> string option \<Rightarrow> row list \<Rightarrow> error + row list" where
  "spec_truncate parse_int qty ws =
     (case qty of
        None \<Rightarrow> Inr ws
      | Some q \<Rightarrow>
          if q \<noteq> [] then
            (case parse_int q of None \<Rightarrow> Inl ValueError | Some n \<Rightarrow> Inr (take (nat n) ws))
          else Inr ws)"

definition spec_by_serverid ::
  "(string \<Rightarrow> int option) \<Rightarrow> string option \<Rightarrow> row list \<Rightarrow> error + row list" where
  "spec_by_serverid parse_int by_serverid ws =
     (case by_serverid of
        None \<Rightarrow> Inr ws
      | Some b \<Rightarrow>
          if b \<noteq> [] then
            (case parse_int b of
               None \<Rightarrow> Inl (ValidationError (not_found b))
             | Some i \<Rightarrow>
                 (let found = filter (\<lambda>r. server_id (obj r) = i) ws
                  in if found = [] then Inl (ValidationError (not_found b)) else Inr found))
          else Inr ws)"

definition spec_handle ::
  "(string \<Rightarrow> int option) \<Rightarrow> request \<Rightarrow> server list \<Rightarrow> error + server_view list" where
  "spec_handle parse_int request db =
     (let category = query_params request ''category'';
          qty = query_params request ''qty'';
          by_user = (query_params request ''by_user'' = Some ''true'');
          by_serverid = query_params request ''by_serverid'';
          with_num_members = (query_params request ''with_num_members'' = Some ''true'')
      in if by_user \<and> \<not> is_authenticated (user request) then Inl AuthenticationFailed
         else
           (let ws3 = (case category of
                         None \<Rightarrow> db
                       | Some c \<Rightarrow>
                           if c \<noteq> [] then filter (\<lambda>s. server.category s = c) db else db);
                ws4 = (if by_user then
                         (case user request of
                            AnonymousUser \<Rightarrow> ws3
                          | User u \<Rightarrow> filter (\<lambda>s. u |\<in>| member s) ws3)
                       else ws3);
                ws5 = map (annotated_row with_num_members) ws4
            in case spec_truncate parse_int qty ws5 of
                 Inl e \<Rightarrow> Inl e
               | Inr ws6 \<Rightarrow>
                   (case spec_by_serverid parse_int by_serverid ws6 of
                      Inl e \<Rightarrow> Inl e
                    | Inr ws7 \<Rightarrow> Inr (map (ServerSerializer with_num_members) ws7))))"


section \<open>Properties\<close>

subsection \<open>The storage is only read\<close>

lemma seq_storage:
  assumes "\<And>w. storage (snd (f w)) = storage w" and "\<And>w. storage (snd (g w)) = storage w"
  shows "storage (snd (seq f g w)) = storage w"
proof (cases "f w")
  case (Pair r w')
  with assms(1)[of w] have "storage w' = storage w" by simp
  with Pair assms(2)[of w'] show ?thesis
    by (cases r) (simp_all add: seq_def)
qed

lemma assign_queryset_storage: "storage (snd (assign_queryset f w)) = storage w"
  by (simp add: assign_queryset_def split: sum.splits)

lemma category_step_storage: "storage (snd (category_step c w)) = storage w"
  by (simp add: category_step_def skip_def assign_queryset_storage split: option.splits)

lemma by_user_step_storage: "storage (snd (by_user_step b r w)) = storage w"
  by (simp add: by_user_step_def skip_def assign_queryset_storage)

lemma num_members_step_storage: "storage (snd (num_members_step b w)) = storage w"
  by (simp add: num_members_step_def skip_def assign_queryset_storage)

lemma qty_step_storage: "storage (snd (qty_step p q w)) = storage w"
  by (simp add: qty_step_def skip_def raise_def assign_queryset_storage split: option.splits)

lemma by_serverid_step_storage: "storage (snd (by_serverid_step p b w)) = storage w"
  by (simp add: by_serverid_step_def skip_def Let_def split: option.splits sum.splits error.splits)

lemma respond_storage: "storage (snd (respond b w)) = storage w"
  by (simp add: respond_def)

text \<open>
  C9: for every request and every state the method is started in, whether it
  returns or raises, the stored server records (with their categories and member
  sets) are the same afterwards: the method changes \<^verbatim>\<open>self.queryset\<close> only.
\<close>

theorem list_storage_unchanged:
  "storage (snd (list parse_int request w)) = storage w"
  unfolding list_def Let_def
  by (simp add: raise_def seq_storage category_step_storage by_user_step_storage
      num_members_step_storage qty_step_storage by_serverid_step_storage respond_storage)

theorem list_storage_unchanged_witness:
  "storage (snd (list dec_int
      \<lparr>query_params = [''category'' \<mapsto> ''gaming'', ''by_serverid'' \<mapsto> ''999''],
       user = AnonymousUser\<rparr> (new_view example_servers))) = example_servers"
  using list_storage_unchanged [of dec_int
      "\<lparr>query_params = [''category'' \<mapsto> ''gaming'', ''by_serverid'' \<mapsto> ''999''],
        user = AnonymousUser\<rparr>" "new_view example_servers"]
  by (simp add: new_view_def)

subsection \<open>The steps one by one\<close>

lemma by_user_never_filters:
  "\<not> (b \<and> \<not> is_authenticated (user r)) \<Longrightarrow> by_user_step b r = skip"
  by (simp add: by_user_step_def)

lemma category_step_falsy: "\<not> truthy c \<Longrightarrow> category_step c = skip"
  by (cases c) (simp_all add: category_step_def)

lemma qty_step_falsy: "\<not> truthy q \<Longrightarrow> qty_step p q = skip"
  by (cases q) (simp_all add: qty_step_def)

lemma by_serverid_step_falsy: "\<not> truthy b \<Longrightarrow> by_serverid_step p b = skip"
  by (cases b) (simp_all add: by_serverid_step_def)

lemma seq_skip: "seq skip g = g"
  by (rule ext) (simp add: seq_def skip_def)

lemma category_step_new:
  "category_step c (new_view db) = (Inr (), \<lparr>storage = db, queryset = prepared c False\<rparr>)"
  by (simp add: category_step_def new_view_def objects_all_def prepared_def skip_def
      assign_queryset_def filter_qs_def is_sliced_def split: option.splits)

lemma num_members_step_prepared:
  "num_members_step wn \<lparr>storage = db, queryset = prepared c False\<rparr>
     = (Inr (), \<lparr>storage = db, queryset = prepared c wn\<rparr>)"
  by (simp add: num_members_step_def prepared_def skip_def assign_queryset_def
      annotate_num_members_def)

text \<open>
  When the check of \<^verbatim>\<open>by_user\<close> passes, a new view reaches the \<^verbatim>\<open>qty\<close> step with
  the category condition (if any) and the annotation flag, and nothing else.
\<close>

lemma list_front:
  assumes "\<not> (query_params r ''by_user'' = Some ''true'' \<and> \<not> is_authenticated (user r))"
  shows "list p r (new_view db) =
         tail p r \<lparr>storage = db,
           queryset = prepared (query_params r ''category'')
                        (query_params r ''with_num_members'' = Some ''true'')\<rparr>"
proof -
  let ?wn = "query_params r ''with_num_members'' = Some ''true''"
  let ?bu = "query_params r ''by_user'' = Some ''true''"
  have "list p r (new_view db) =
        seq (category_step (query_params r ''category''))
         (seq (by_user_step ?bu r) (seq (num_members_step ?wn) (tail p r))) (new_view db)"
    using assms unfolding list_def Let_def tail_def by auto
  also have "\<dots> = seq (num_members_step ?wn) (tail p r)
        \<lparr>storage = db, queryset = prepared (query_params r ''category'') False\<rparr>"
    using assms by (auto simp add: seq_def [of "category_step c" for c] category_step_new by_user_never_filters seq_skip)
  also have "\<dots> = tail p r \<lparr>storage = db, queryset = prepared (query_params r ''category'') ?wn\<rparr>"
    by (simp add: seq_def [of "num_members_step b" for b] num_members_step_prepared)
  finally show ?thesis .
qed

subsection \<open>The outcomes of the last three steps\<close>

lemma tail_parse_error:
  assumes "query_params r ''qty'' = Some q" "q \<noteq> []" "p q = None"
  shows "tail p r w = (Inl ValueError, w)"
  using assms by (simp add: tail_def qty_step_def raise_def seq_def)

lemma tail_negative:
  assumes "query_params r ''qty'' = Some q" "q \<noteq> []" "p q = Some n" "n < 0"
  shows "tail p r w = (Inl NegativeIndexing, w)"
  using assms by (simp add: tail_def qty_step_def seq_def assign_queryset_def slice_upto_def)

lemma tail_sliced_filter:
  assumes "query_params r ''qty'' = Some q" "q \<noteq> []" "p q = Some n" "0 \<le> n"
    and "query_params r ''by_serverid'' = Some b" "b \<noteq> []"
  shows "fst (tail p r w) = Inl FilterAfterSlice"
  using assms by (simp add: tail_def qty_step_def seq_def assign_queryset_def slice_upto_def
      by_serverid_step_def filter_id_def is_sliced_def)

lemma tail_sliced:
  assumes "query_params r ''qty'' = Some q" "q \<noteq> []" "p q = Some n" "0 \<le> n"
    and "\<not> truthy (query_params r ''by_serverid'')"
  shows "fst (tail p r \<lparr>storage = db, queryset = prepared c wn\<rparr>) =
         Inr (map (ServerSerializer (query_params r ''with_num_members'' = Some ''true''))
               (fetch db ((prepared c wn)\<lparr>high_mark := Some (nat n)\<rparr>)))"
  using assms by (simp add: tail_def qty_step_def seq_def assign_queryset_def slice_upto_def
      by_serverid_step_falsy skip_def respond_def prepared_def)

lemma tail_plain:
  assumes "\<not> truthy (query_params r ''qty'')" "\<not> truthy (query_params r ''by_serverid'')"
  shows "fst (tail p r w) =
         Inr (map (ServerSerializer (query_params r ''with_num_members'' = Some ''true''))
               (fetch (storage w) (queryset w)))"
  using assms by (simp add: tail_def qty_step_falsy by_serverid_step_falsy seq_skip respond_def)

lemma tail_id_parse_error:
  assumes "\<not> truthy (query_params r ''qty'')"
    and "query_params r ''by_serverid'' = Some b" "b \<noteq> []" "p b = None"
  shows "tail p r \<lparr>storage = db, queryset = prepared c wn\<rparr> =
         (Inl (ValidationError (not_found b)), \<lparr>storage = db, queryset = prepared c wn\<rparr>)"
  using assms by (simp add: tail_def qty_step_falsy seq_skip by_serverid_step_def seq_def
      filter_id_def is_sliced_def prepared_def)

lemma tail_id:
  assumes "\<not> truthy (query_params r ''qty'')"
    and "query_params r ''by_serverid'' = Some b" "b \<noteq> []" "p b = Some i"
  shows "fst (tail p r \<lparr>storage = db, queryset = prepared c wn\<rparr>) =
         (let q = (prepared c wn)\<lparr>lookups := lookups (prepared c wn) @ [Id i]\<rparr>
          in if fetch db q = [] then Inl (ValidationError (not_found b))
             else Inr (map (ServerSerializer (query_params r ''with_num_members'' = Some ''true''))
                        (fetch db q)))"
  using assms by (simp add: tail_def qty_step_falsy seq_skip by_serverid_step_def seq_def
      filter_id_def is_sliced_def prepared_def exists_qs_def respond_def Let_def)

subsection \<open>Evaluation of a query\<close>

lemma fetch_high_mark:
  "high_mark q = None \<Longrightarrow> fetch db (q\<lparr>high_mark := Some h\<rparr>) = take h (fetch db q)"
  by (simp add: fetch_def selected_def limit_def take_map)

lemma limit_subseq: "subseq (limit h xs) xs"
  by (cases h) (simp_all add: limit_def prefix_imp_subseq take_is_prefix)

lemma selected_subseq: "subseq (selected db q) db"
proof -
  have "subseq (selected db q) (filter (\<lambda>s. list_all (matches s) (lookups q)) db)"
    by (simp add: selected_def limit_subseq)
  then show ?thesis
    using subseq_filter_left subseq_order.trans by blast
qed

lemma set_limit: "x \<in> set (limit h xs) \<Longrightarrow> x \<in> set xs"
  by (cases h) (auto simp add: limit_def dest: in_set_takeD)

lemma selected_matches:
  assumes "s \<in> set (selected db q)"
  shows "list_all (matches s) (lookups q)"
proof -
  from assms have "s \<in> set (filter (\<lambda>s. list_all (matches s) (lookups q)) db)"
    unfolding selected_def by (rule set_limit)
  then show ?thesis by simp
qed

lemma serialize_fetch:
  "map (ServerSerializer wn) (fetch db q) =
   map (\<lambda>s. \<lparr>view_id = server_id s, view_name = name s, view_category = category s,
             view_num_members =
               (if wn \<and> num_members_annotated q then Some (fcard (member s)) else None)\<rparr>)
     (selected db q)"
  by (simp add: fetch_def ServerSerializer_def annotated_row_def)

lemma prepared_annotated [simp]: "num_members_annotated (prepared c wn) = wn"
  by (simp add: prepared_def)

lemma selected_in_storage:
  assumes "s \<in> set (selected db q)"
  shows "s \<in> set db"
proof -
  from assms have "s \<in> set (filter (\<lambda>s. list_all (matches s) (lookups q)) db)"
    unfolding selected_def by (rule set_limit)
  then show ?thesis by simp
qed

lemma selected_lookup:
  assumes "l \<in> set (lookups q)" "s \<in> set (selected db q)"
  shows "matches s l"
  using selected_matches [OF assms(2)] assms(1) by (auto simp add: list_all_iff)

lemma view_in_fetch:
  assumes "v \<in> set (map (ServerSerializer wn) (fetch db q))"
  obtains s where "s \<in> set (selected db q)" "view_id v = server_id s"
    "view_category v = category s"
  using assms by (auto simp add: fetch_def ServerSerializer_def annotated_row_def)

lemma prepared_category:
  "c \<noteq> [] \<Longrightarrow> Category_name c \<in> set (lookups (prepared (Some c) wn))"
  by (simp add: prepared_def)

subsection \<open>The outcome of a request\<close>

lemma list_raises_unauthenticated:
  assumes "query_params r ''by_user'' = Some ''true'' \<and> \<not> is_authenticated (user r)"
  shows "list p r w = (Inl AuthenticationFailed, w)"
  using assms by (simp add: list_def raise_def)

lemma list_success_cases:
  assumes ok: "fst (list p r (new_view db)) = Inr vs"
  obtains (plain)
      "\<not> truthy (query_params r ''qty'')" "\<not> truthy (query_params r ''by_serverid'')"
      "vs = map (ServerSerializer (query_params r ''with_num_members'' = Some ''true''))
             (fetch db (prepared (query_params r ''category'')
                          (query_params r ''with_num_members'' = Some ''true'')))"
  | (sliced) q n where
      "query_params r ''qty'' = Some q" "q \<noteq> []" "p q = Some n" "0 \<le> n"
      "\<not> truthy (query_params r ''by_serverid'')"
      "vs = map (ServerSerializer (query_params r ''with_num_members'' = Some ''true''))
             (fetch db ((prepared (query_params r ''category'')
                          (query_params r ''with_num_members'' = Some ''true''))
                        \<lparr>high_mark := Some (nat n)\<rparr>))"
  | (by_id) b i where
      "\<not> truthy (query_params r ''qty'')"
      "query_params r ''by_serverid'' = Some b" "b \<noteq> []" "p b = Some i"
      "vs = map (ServerSerializer (query_params r ''with_num_members'' = Some ''true''))
             (fetch db ((prepared (query_params r ''category'')
                          (query_params r ''with_num_members'' = Some ''true''))
                        \<lparr>lookups := lookups (prepared (query_params r ''category'')
                              (query_params r ''with_num_members'' = Some ''true''))
                            @ [Id i]\<rparr>))"
      "vs \<noteq> []"
proof -
  let ?wn = "query_params r ''with_num_members'' = Some ''true''"
  let ?q0 = "prepared (query_params r ''category'') ?wn"
  let ?w = "\<lparr>storage = db, queryset = ?q0\<rparr>"
  have auth: "\<not> (query_params r ''by_user'' = Some ''true'' \<and> \<not> is_authenticated (user r))"
  proof
    assume a: "query_params r ''by_user'' = Some ''true'' \<and> \<not> is_authenticated (user r)"
    have "fst (list p r (new_view db)) = Inl AuthenticationFailed"
      by (simp add: list_raises_unauthenticated [OF a])
    with ok show False by simp
  qed
  have t: "fst (tail p r ?w) = Inr vs"
    using ok list_front [OF auth, of p db] by simp
  show thesis
  proof (cases "truthy (query_params r ''qty'')")
    case True
    then obtain q where q: "query_params r ''qty'' = Some q" "q \<noteq> []"
      by (cases "query_params r ''qty''") auto
    show thesis
    proof (cases "p q")
      case None
      with t q show thesis by (simp add: tail_parse_error)
    next
      case (Some n)
      show thesis
      proof (cases "n < 0")
        case True
        with t q Some show thesis by (simp add: tail_negative)
      next
        case False
        then have n: "0 \<le> n" by simp
        show thesis
        proof (cases "truthy (query_params r ''by_serverid'')")
          case True
          then obtain b where "query_params r ''by_serverid'' = Some b" "b \<noteq> []"
            by (cases "query_params r ''by_serverid''") auto
          with t q Some n show thesis by (simp add: tail_sliced_filter)
        next
          case False
          with t q Some n have "vs = map (ServerSerializer ?wn)
              (fetch db (?q0\<lparr>high_mark := Some (nat n)\<rparr>))"
            by (simp add: tail_sliced)
          with q Some n False show thesis by (rule sliced)
        qed
      qed
    qed
  next
    case nq: False
    show thesis
    proof (cases "truthy (query_params r ''by_serverid'')")
      case True
      then obtain b where b: "query_params r ''by_serverid'' = Some b" "b \<noteq> []"
        by (cases "query_params r ''by_serverid''") auto
      show thesis
      proof (cases "p b")
        case None
        with t nq b show thesis by (simp add: tail_id_parse_error)
      next
        case (Some i)
        let ?q = "?q0\<lparr>lookups := lookups ?q0 @ [Id i]\<rparr>"
        from t nq b Some have
          "(if fetch db ?q = [] then Inl (ValidationError (not_found b))
            else Inr (map (ServerSerializer ?wn) (fetch db ?q))) = Inr vs"
          by (simp add: tail_id Let_def)
        then have "vs = map (ServerSerializer ?wn) (fetch db ?q)" "vs \<noteq> []"
          by (auto split: if_splits)
        with nq b Some show thesis by (rule by_id)
      qed
    next
      case False
      with t nq have "vs = map (ServerSerializer ?wn) (fetch db ?q0)"
        by (simp add: tail_plain)
      with nq False show thesis by (rule plain)
    qed
  qed
qed

lemma prepared_high_mark [simp]: "high_mark (prepared c wn) = None"
  by (simp add: prepared_def)

lemma list_plain:
  assumes "\<not> (query_params r ''by_user'' = Some ''true'' \<and> \<not> is_authenticated (user r))"
    and "\<not> truthy (query_params r ''qty'')" "\<not> truthy (query_params r ''by_serverid'')"
  shows "fst (list p r (new_view db)) =
         Inr (map (ServerSerializer (query_params r ''with_num_members'' = Some ''true''))
               (fetch db (prepared (query_params r ''category'')
                            (query_params r ''with_num_members'' = Some ''true''))))"
  using assms by (simp add: list_front tail_plain)

lemma list_sliced:
  assumes "\<not> (query_params r ''by_user'' = Some ''true'' \<and> \<not> is_authenticated (user r))"
    and "query_params r ''qty'' = Some q" "q \<noteq> []" "p q = Some n" "0 \<le> n"
    and "\<not> truthy (query_params r ''by_serverid'')"
  shows "fst (list p r (new_view db)) =
         Inr (take (nat n)
               (map (ServerSerializer (query_params r ''with_num_members'' = Some ''true''))
                 (fetch db (prepared (query_params r ''category'')
                              (query_params r ''with_num_members'' = Some ''true'')))))"
  using assms by (simp add: list_front tail_sliced fetch_high_mark take_map)

text \<open>
  A slice followed by a condition on the identifier: \<^verbatim>\<open>filter\<close> refuses the sliced
  query, and the \<^verbatim>\<open>except ValueError\<close> clause lets this error pass.
\<close>

lemma list_filter_after_slice:
  assumes "\<not> (query_params r ''by_user'' = Some ''true'' \<and> \<not> is_authenticated (user r))"
    and "query_params r ''qty'' = Some q" "q \<noteq> []" "p q = Some n" "0 \<le> n"
    and "query_params r ''by_serverid'' = Some b" "b \<noteq> []"
  shows "fst (list p r (new_view db)) = Inl FilterAfterSlice"
  using assms by (simp add: list_front tail_sliced_filter)

text \<open>A negative \<^verbatim>\<open>qty\<close> ends the method in the slice.\<close>

lemma list_negative_qty:
  assumes "\<not> (query_params r ''by_user'' = Some ''true'' \<and> \<not> is_authenticated (user r))"
    and "query_params r ''qty'' = Some q" "q \<noteq> []" "p q = Some n" "n < 0"
  shows "fst (list p r (new_view db)) = Inl NegativeIndexing"
  using assms by (simp add: list_front tail_negative)

section \<open>The claims\<close>

lemmas run_defs =
  list_def category_step_def by_user_step_def num_members_step_def qty_step_def
  by_serverid_step_def respond_def skip_def raise_def seq_def assign_queryset_def
  filter_qs_def filter_id_def annotate_num_members_def slice_upto_def is_sliced_def
  fetch_def selected_def limit_def annotated_row_def exists_qs_def ServerSerializer_def
  new_view_def objects_all_def not_found_def Let_def

lemmas example_defs = example_servers_def dec_int_def digit_of_def fcard_finsert_if

subsection \<open>Authentication comes first\<close>

text \<open>
  C3: when \<^verbatim>\<open>by_user\<close> is the string \<^verbatim>\<open>true\<close> and the request has no authenticated
  user, the method ends with \<^verbatim>\<open>AuthenticationFailed\<close>, whatever the other
  parameters are and whatever state it was started in; no records are returned and
  \<^verbatim>\<open>self.queryset\<close> is as before, so no filter was applied.
\<close>

theorem list_by_user_unauthenticated:
  assumes "query_params request ''by_user'' = Some ''true''"
    and "\<not> is_authenticated (user request)"
  shows "list parse_int request w = (Inl AuthenticationFailed, w)"
  using assms by (simp add: list_def raise_def)

theorem list_by_user_unauthenticated_witness:
  "query_params
     \<lparr>query_params = [''by_user'' \<mapsto> ''true'', ''category'' \<mapsto> ''gaming'', ''qty'' \<mapsto> ''abc'',
                      ''by_serverid'' \<mapsto> ''999''],
      user = AnonymousUser\<rparr> ''by_user'' = Some ''true''
   \<and> list dec_int
     \<lparr>query_params = [''by_user'' \<mapsto> ''true'', ''category'' \<mapsto> ''gaming'', ''qty'' \<mapsto> ''abc'',
                      ''by_serverid'' \<mapsto> ''999''],
      user = AnonymousUser\<rparr> (new_view example_servers)
     = (Inl AuthenticationFailed, new_view example_servers)"
  using list_by_user_unauthenticated [of
      "\<lparr>query_params = [''by_user'' \<mapsto> ''true'', ''category'' \<mapsto> ''gaming'',
                        ''qty'' \<mapsto> ''abc'', ''by_serverid'' \<mapsto> ''999''],
        user = AnonymousUser\<rparr>" dec_int "new_view example_servers"]
  by simp

subsection \<open>The membership filter\<close>

text \<open>
  The inner condition of lines 57-60 repeats the condition of line 49, under which
  the method has already ended: for an authenticated user the step does nothing,
  and the request gives what it gives without \<^verbatim>\<open>by_user\<close>.
\<close>

lemma by_user_has_no_effect:
  assumes "is_authenticated (user r)"
  shows "list p r w = list p (without ''by_user'' r) w"
  using assms by (simp add: list_def Let_def by_user_step_def without_def)

text \<open>
  C1 says that \<^verbatim>\<open>by_user=true\<close> with an authenticated user restricts the result to
  the servers the user is a member of. The method does not: user 9 is a member of
  none of the three stored servers and gets all three.
\<close>

theorem list_by_user_returns_non_member_servers:
  "fst (list dec_int \<lparr>query_params = [''by_user'' \<mapsto> ''true''], user = User 9\<rparr>
         (new_view example_servers)) =
     Inr [\<lparr>view_id = 1, view_name = ''lobby'', view_category = ''gaming'',
            view_num_members = None\<rparr>,
          \<lparr>view_id = 2, view_name = ''raid'', view_category = ''gaming'',
            view_num_members = None\<rparr>,
          \<lparr>view_id = 3, view_name = ''jazz'', view_category = ''music'',
            view_num_members = None\<rparr>]
   \<and> filter (\<lambda>s. 9 |\<in>| member s) example_servers = []"
  by (simp add: run_defs example_defs)

subsection \<open>The member count\<close>

text \<open>
  C4: when \<^verbatim>\<open>with_num_members\<close> is the string \<^verbatim>\<open>true\<close>, the returned sequence is
  made, in the order of the storage, from stored records, and the view of each
  record carries a member count equal to the number of members of that record.
\<close>

theorem list_with_num_members:
  assumes "query_params request ''with_num_members'' = Some ''true''"
    and "fst (list parse_int request (new_view db)) = Inr vs"
  shows "\<exists>rs. subseq rs db \<and>
           vs = map (\<lambda>s. \<lparr>view_id = server_id s, view_name = name s,
                          view_category = category s,
                          view_num_members = Some (fcard (member s))\<rparr>) rs"
proof -
  from assms(2) obtain q where "vs = map (ServerSerializer True) (fetch db q)"
    and "num_members_annotated q"
    by (cases rule: list_success_cases) (simp_all add: assms(1))
  then have "vs = map (\<lambda>s. \<lparr>view_id = server_id s, view_name = name s,
                          view_category = category s,
                          view_num_members = Some (fcard (member s))\<rparr>) (selected db q)"
    by (simp add: serialize_fetch)
  with selected_subseq [of db q] show ?thesis by blast
qed

theorem list_with_num_members_witness:
  "query_params
     \<lparr>query_params = [''with_num_members'' \<mapsto> ''true'', ''category'' \<mapsto> ''gaming''],
      user = AnonymousUser\<rparr> ''with_num_members'' = Some ''true''
   \<and> fst (list dec_int
       \<lparr>query_params = [''with_num_members'' \<mapsto> ''true'', ''category'' \<mapsto> ''gaming''],
        user = AnonymousUser\<rparr> (new_view example_servers)) =
       Inr [\<lparr>view_id = 1, view_name = ''lobby'', view_category = ''gaming'',
              view_num_members = Some 2\<rparr>,
            \<lparr>view_id = 2, view_name = ''raid'', view_category = ''gaming'',
              view_num_members = Some 1\<rparr>]
   \<and> (\<exists>rs. subseq rs example_servers \<and>
         [\<lparr>view_id = 1, view_name = ''lobby'', view_category = ''gaming'',
            view_num_members = Some 2\<rparr>,
          \<lparr>view_id = 2, view_name = ''raid'', view_category = ''gaming'',
            view_num_members = Some 1\<rparr>] =
         map (\<lambda>s. \<lparr>view_id = server_id s, view_name = name s,
                    view_category = category s,
                    view_num_members = Some (fcard (member s))\<rparr>) rs)"
proof -
  let ?r = "\<lparr>query_params = [''with_num_members'' \<mapsto> ''true'', ''category'' \<mapsto> ''gaming''],
             user = AnonymousUser\<rparr>"
  have p: "query_params ?r ''with_num_members'' = Some ''true''" by simp
  have e: "fst (list dec_int ?r (new_view example_servers)) =
       Inr [\<lparr>view_id = 1, view_name = ''lobby'', view_category = ''gaming'',
              view_num_members = Some 2\<rparr>,
            \<lparr>view_id = 2, view_name = ''raid'', view_category = ''gaming'',
              view_num_members = Some 1\<rparr>]"
    by (simp add: run_defs example_defs)
  from list_with_num_members [OF p e] p e show ?thesis by blast
qed

subsection \<open>The category filter\<close>

text \<open>
  C7: when \<^verbatim>\<open>category\<close> is given and not empty, every returned view has this
  category; and when no stored record has it, the result is the empty sequence and
  not an error, provided no other parameter causes one: the check of \<^verbatim>\<open>by_user\<close>
  passes, \<^verbatim>\<open>qty\<close> is absent, empty or a non-negative integer, and \<^verbatim>\<open>by_serverid\<close>
  is absent or empty.
\<close>

theorem list_category:
  assumes "query_params request ''category'' = Some c" "c \<noteq> []"
  shows "(\<forall>vs. fst (list parse_int request (new_view db)) = Inr vs \<longrightarrow>
            (\<forall>v \<in> set vs. view_category v = c))
       \<and> ((\<forall>s \<in> set db. category s \<noteq> c)
            \<and> \<not> (query_params request ''by_user'' = Some ''true''
                   \<and> \<not> is_authenticated (user request))
            \<and> (case query_params request ''qty'' of
                  None \<Rightarrow> True
                | Some q \<Rightarrow> q = [] \<or> (\<exists>n. parse_int q = Some n \<and> 0 \<le> n))
            \<and> \<not> truthy (query_params request ''by_serverid'')
          \<longrightarrow> fst (list parse_int request (new_view db)) = Inr [])"
proof (intro conjI allI impI ballI)
  have every: "view_category v = c \<and> (\<exists>s \<in> set db. category s = c)"
    if ok: "fst (list parse_int request (new_view db)) = Inr vs" and v: "v \<in> set vs" for vs v
  proof -
    from ok obtain q' where vs: "vs = map (ServerSerializer
        (query_params request ''with_num_members'' = Some ''true'')) (fetch db q')"
      and l: "Category_name c \<in> set (lookups q')"
      by (cases rule: list_success_cases) (use assms prepared_category in simp_all)
    from v vs have "v \<in> set (map (ServerSerializer
        (query_params request ''with_num_members'' = Some ''true'')) (fetch db q'))"
      by simp
    then obtain s where s: "s \<in> set (selected db q')" "view_category v = category s"
      by (rule view_in_fetch)
    from selected_lookup [OF l s(1)] have "category s = c" by simp
    with s selected_in_storage [OF s(1)] show ?thesis by auto
  qed
  show "view_category v = c"
    if "fst (list parse_int request (new_view db)) = Inr vs" "v \<in> set vs" for vs v
    using every [OF that] by simp
  assume h: "(\<forall>s \<in> set db. category s \<noteq> c)
            \<and> \<not> (query_params request ''by_user'' = Some ''true''
                   \<and> \<not> is_authenticated (user request))
            \<and> (case query_params request ''qty'' of
                  None \<Rightarrow> True
                | Some q \<Rightarrow> q = [] \<or> (\<exists>n. parse_int q = Some n \<and> 0 \<le> n))
            \<and> \<not> truthy (query_params request ''by_serverid'')"
  have "\<exists>vs. fst (list parse_int request (new_view db)) = Inr vs"
  proof (cases "truthy (query_params request ''qty'')")
    case True
    with h obtain q n where "query_params request ''qty'' = Some q" "q \<noteq> []"
      "parse_int q = Some n" "0 \<le> n"
      by (cases "query_params request ''qty''") auto
    with h show ?thesis
      using list_sliced [where p = parse_int and r = request and q = q and n = n and db = db]
      by simp
  next
    case False
    with h show ?thesis
      using list_plain [where p = parse_int and r = request and db = db] by simp
  qed
  then obtain vs where ok: "fst (list parse_int request (new_view db)) = Inr vs" ..
  have "vs = []"
  proof (cases vs)
    case (Cons v vs')
    then have "v \<in> set vs" by simp
    from every [OF ok this] h show ?thesis by auto
  qed simp
  with ok show "fst (list parse_int request (new_view db)) = Inr []" by simp
qed

theorem list_category_witness:
  "query_params
     \<lparr>query_params = [''category'' \<mapsto> ''chess'', ''qty'' \<mapsto> ''2''], user = AnonymousUser\<rparr>
     ''category'' = Some ''chess''
   \<and> filter (\<lambda>s. category s = ''chess'') example_servers = []
   \<and> fst (list dec_int
       \<lparr>query_params = [''category'' \<mapsto> ''chess'', ''qty'' \<mapsto> ''2''], user = AnonymousUser\<rparr>
       (new_view example_servers)) = Inr []
   \<and> fst (list dec_int
       \<lparr>query_params = [''category'' \<mapsto> ''music''], user = AnonymousUser\<rparr>
       (new_view example_servers)) =
       Inr [\<lparr>view_id = 3, view_name = ''jazz'', view_category = ''music'',
              view_num_members = None\<rparr>]
   \<and> view_category \<lparr>view_id = 3, view_name = ''jazz'', view_category = ''music'',
                     view_num_members = None\<rparr> = ''music''"
proof -
  let ?r = "\<lparr>query_params = [''category'' \<mapsto> ''chess'', ''qty'' \<mapsto> ''2''],
             user = AnonymousUser\<rparr>"
  let ?r' = "\<lparr>query_params = [''category'' \<mapsto> ''music''], user = AnonymousUser\<rparr>"
  have "fst (list dec_int ?r (new_view example_servers)) = Inr []"
    using list_category [of ?r "''chess''" dec_int example_servers]
    by (simp add: example_defs)
  moreover have e: "fst (list dec_int ?r' (new_view example_servers)) =
       Inr [\<lparr>view_id = 3, view_name = ''jazz'', view_category = ''music'',
              view_num_members = None\<rparr>]"
    by (simp add: run_defs example_defs)
  moreover have "filter (\<lambda>s. category s = ''chess'') example_servers = []"
    by (simp add: example_defs)
  ultimately show ?thesis
    using list_category [of ?r' "''music''" dec_int example_servers] by simp
qed

subsection \<open>The identifier filter\<close>

text \<open>
  C2 as stated, for every request in which \<^verbatim>\<open>by_serverid\<close> is present and does not
  parse, fails where the check of \<^verbatim>\<open>by_user\<close> ends the method first: the error is
  then \<^verbatim>\<open>AuthenticationFailed\<close> and not the validation error.
\<close>

theorem list_by_serverid_counterexample:
  "query_params
     \<lparr>query_params = [''by_serverid'' \<mapsto> ''abc'', ''by_user'' \<mapsto> ''true''],
      user = AnonymousUser\<rparr> ''by_serverid'' = Some ''abc''
   \<and> dec_int ''abc'' = None
   \<and> fst (list dec_int
       \<lparr>query_params = [''by_serverid'' \<mapsto> ''abc'', ''by_user'' \<mapsto> ''true''],
        user = AnonymousUser\<rparr> (new_view example_servers)) = Inl AuthenticationFailed
   \<and> fst (list dec_int
       \<lparr>query_params = [''by_serverid'' \<mapsto> ''abc'', ''by_user'' \<mapsto> ''true''],
        user = AnonymousUser\<rparr> (new_view example_servers))
     \<noteq> Inl (ValidationError ''Server with id abc not found'')"
  by (simp add: run_defs example_defs)

text \<open>
  C2, amended: when \<^verbatim>\<open>by_serverid\<close> is given and not empty, the check of \<^verbatim>\<open>by_user\<close>
  passes, \<^verbatim>\<open>qty\<close> is absent or empty, and \<^verbatim>\<open>by_serverid\<close> either does not parse as
  an integer or parses to an identifier that no stored record has, the method ends
  with the validation error whose detail is \<^verbatim>\<open>Server with id {by_serverid} not found\<close>
  with the parameter as it was given.
\<close>

theorem list_by_serverid_not_found:
  assumes "query_params request ''by_serverid'' = Some b" "b \<noteq> []"
    and "\<not> (query_params request ''by_user'' = Some ''true''
             \<and> \<not> is_authenticated (user request))"
    and "\<not> truthy (query_params request ''qty'')"
    and "\<forall>i. parse_int b = Some i \<longrightarrow> i \<notin> server_id ` set db"
  shows "fst (list parse_int request (new_view db)) =
         Inl (ValidationError (''Server with id '' @ b @ '' not found''))"
proof (cases "parse_int b")
  case None
  with assms show ?thesis
    by (simp add: list_front tail_id_parse_error not_found_def)
next
  case (Some i)
  let ?q0 = "prepared (query_params request ''category'')
               (query_params request ''with_num_members'' = Some ''true'')"
  let ?q = "?q0\<lparr>lookups := lookups ?q0 @ [Id i]\<rparr>"
  have "selected db ?q = []"
  proof (cases "selected db ?q")
    case (Cons s ss)
    then have s: "s \<in> set (selected db ?q)" by simp
    have "matches s (Id i)" by (rule selected_lookup [OF _ s]) simp
    with selected_in_storage [OF s] assms(5) Some show ?thesis by auto
  qed simp
  then have "fetch db ?q = []" by (simp add: fetch_def)
  with assms Some show ?thesis
    by (simp add: list_front tail_id not_found_def Let_def)
qed

theorem list_by_serverid_not_found_witness:
  "dec_int ''999'' = Some 999
   \<and> fst (list dec_int
       \<lparr>query_params = [''by_serverid'' \<mapsto> ''999''], user = AnonymousUser\<rparr>
       (new_view example_servers)) = Inl (ValidationError ''Server with id 999 not found'')
   \<and> dec_int ''abc'' = None
   \<and> fst (list dec_int
       \<lparr>query_params = [''by_serverid'' \<mapsto> ''abc'', ''category'' \<mapsto> ''gaming''],
        user = User 7\<rparr>
       (new_view example_servers)) = Inl (ValidationError ''Server with id abc not found'')"
  using
    list_by_serverid_not_found [of
      "\<lparr>query_params = [''by_serverid'' \<mapsto> ''999''], user = AnonymousUser\<rparr>"
      "''999''" dec_int example_servers]
    list_by_serverid_not_found [of
      "\<lparr>query_params = [''by_serverid'' \<mapsto> ''abc'', ''category'' \<mapsto> ''gaming''],
        user = User 7\<rparr>"
      "''abc''" dec_int example_servers]
  by (simp add: example_defs)

subsection \<open>A quantity that is no integer\<close>

text \<open>
  C8 as stated, for every request in which \<^verbatim>\<open>qty\<close> is present and does not parse,
  fails for the empty string: it is no integer, and the method skips the step and
  returns the records without any error.
\<close>

theorem list_qty_empty_counterexample:
  "query_params \<lparr>query_params = [''qty'' \<mapsto> ''''], user = AnonymousUser\<rparr> ''qty'' = Some ''''
   \<and> dec_int '''' = None
   \<and> fst (list dec_int \<lparr>query_params = [''qty'' \<mapsto> ''''], user = AnonymousUser\<rparr>
         (new_view example_servers)) =
     Inr [\<lparr>view_id = 1, view_name = ''lobby'', view_category = ''gaming'',
            view_num_members = None\<rparr>,
          \<lparr>view_id = 2, view_name = ''raid'', view_category = ''gaming'',
            view_num_members = None\<rparr>,
          \<lparr>view_id = 3, view_name = ''jazz'', view_category = ''music'',
            view_num_members = None\<rparr>]"
  by (simp add: run_defs example_defs)

text \<open>
  C8, amended: when \<^verbatim>\<open>qty\<close> is given, not empty and does not parse as an integer,
  and the check of \<^verbatim>\<open>by_user\<close> passes, the method ends with the \<^verbatim>\<open>ValueError\<close> of
  the conversion, which is neither of the two errors answered to the caller as
  such.
\<close>

theorem list_qty_unparsable:
  assumes "query_params request ''qty'' = Some q" "q \<noteq> []" "parse_int q = None"
    and "\<not> (query_params request ''by_user'' = Some ''true''
             \<and> \<not> is_authenticated (user request))"
  shows "fst (list parse_int request (new_view db)) = Inl ValueError
       \<and> \<not> user_facing ValueError"
  using assms by (simp add: list_front tail_parse_error)

theorem list_qty_unparsable_witness:
  "query_params
     \<lparr>query_params = [''qty'' \<mapsto> ''abc'', ''by_serverid'' \<mapsto> ''1''], user = AnonymousUser\<rparr>
     ''qty'' = Some ''abc''
   \<and> dec_int ''abc'' = None
   \<and> fst (list dec_int
       \<lparr>query_params = [''qty'' \<mapsto> ''abc'', ''by_serverid'' \<mapsto> ''1''], user = AnonymousUser\<rparr>
       (new_view example_servers)) = Inl ValueError
   \<and> \<not> user_facing ValueError"
  using list_qty_unparsable [of
      "\<lparr>query_params = [''qty'' \<mapsto> ''abc'', ''by_serverid'' \<mapsto> ''1''], user = AnonymousUser\<rparr>"
      "''abc''" dec_int example_servers]
  by (simp add: example_defs)

subsection \<open>Empty parameters\<close>

text \<open>
  C10: a \<^verbatim>\<open>category\<close>, \<^verbatim>\<open>qty\<close> or \<^verbatim>\<open>by_serverid\<close> that is given as the empty string
  is treated as absent: outcome and state are those of the same request without
  the parameter, so its step is skipped and raises nothing.
\<close>

theorem list_empty_parameter:
  assumes "k \<in> {''category'', ''qty'', ''by_serverid''}"
    and "query_params request k = Some []"
  shows "list parse_int (without k request) w = list parse_int request w"
proof -
  consider "k = ''category''" | "k = ''qty''" | "k = ''by_serverid''"
    using assms(1) by blast
  then show ?thesis
  proof cases
    case 1
    with assms(2) show ?thesis
      by (simp add: list_def Let_def without_def by_user_step_def category_step_falsy)
  next
    case 2
    with assms(2) show ?thesis
      by (simp add: list_def Let_def without_def by_user_step_def qty_step_falsy)
  next
    case 3
    with assms(2) show ?thesis
      by (simp add: list_def Let_def without_def by_user_step_def by_serverid_step_falsy)
  qed
qed

theorem list_empty_parameter_witness:
  "list dec_int
     (without ''category''
       \<lparr>query_params = [''category'' \<mapsto> '''', ''qty'' \<mapsto> '''', ''by_serverid'' \<mapsto> ''''],
        user = AnonymousUser\<rparr>) (new_view example_servers)
   = list dec_int
       \<lparr>query_params = [''category'' \<mapsto> '''', ''qty'' \<mapsto> '''', ''by_serverid'' \<mapsto> ''''],
        user = AnonymousUser\<rparr> (new_view example_servers)
   \<and> list dec_int
     (without ''qty''
       \<lparr>query_params = [''category'' \<mapsto> '''', ''qty'' \<mapsto> '''', ''by_serverid'' \<mapsto> ''''],
        user = AnonymousUser\<rparr>) (new_view example_servers)
   = list dec_int
       \<lparr>query_params = [''category'' \<mapsto> '''', ''qty'' \<mapsto> '''', ''by_serverid'' \<mapsto> ''''],
        user = AnonymousUser\<rparr> (new_view example_servers)
   \<and> list dec_int
     (without ''by_serverid''
       \<lparr>query_params = [''category'' \<mapsto> '''', ''qty'' \<mapsto> '''', ''by_serverid'' \<mapsto> ''''],
        user = AnonymousUser\<rparr>) (new_view example_servers)
   = list dec_int
       \<lparr>query_params = [''category'' \<mapsto> '''', ''qty'' \<mapsto> '''', ''by_serverid'' \<mapsto> ''''],
        user = AnonymousUser\<rparr> (new_view example_servers)"
proof -
  let ?r = "\<lparr>query_params = [''category'' \<mapsto> '''', ''qty'' \<mapsto> '''', ''by_serverid'' \<mapsto> ''''],
             user = AnonymousUser\<rparr>"
  have "list dec_int (without ''category'' ?r) (new_view example_servers)
        = list dec_int ?r (new_view example_servers)"
    by (rule list_empty_parameter) simp_all
  moreover have "list dec_int (without ''qty'' ?r) (new_view example_servers)
        = list dec_int ?r (new_view example_servers)"
    by (rule list_empty_parameter) simp_all
  moreover have "list dec_int (without ''by_serverid'' ?r) (new_view example_servers)
        = list dec_int ?r (new_view example_servers)"
    by (rule list_empty_parameter) simp_all
  ultimately show ?thesis by simp
qed

subsection \<open>The order of the steps\<close>

lemma fetch_prepared:
  "fetch db (prepared c wn) =
   map (annotated_row wn)
     (case c of
        None \<Rightarrow> db
      | Some x \<Rightarrow> if x \<noteq> [] then filter (\<lambda>s. category s = x) db else db)"
  by (simp add: fetch_def selected_def limit_def prepared_def split: option.splits)

lemma fetch_prepared_id:
  "fetch db ((prepared c wn)\<lparr>lookups := lookups (prepared c wn) @ [Id i]\<rparr>) =
   filter (\<lambda>r. server_id (obj r) = i) (fetch db (prepared c wn))"
  by (simp add: fetch_def selected_def limit_def prepared_def annotated_row_def
      filter_map comp_def split: option.splits)

text \<open>
  The method and the eight steps of the specification give the same outcome on
  every request that does not ask an authenticated user's membership filter, does
  not combine \<^verbatim>\<open>qty\<close> with \<^verbatim>\<open>by_serverid\<close> and has no negative \<^verbatim>\<open>qty\<close>.
\<close>

lemma list_follows_spec_order:
  assumes m: "\<not> (query_params r ''by_user'' = Some ''true'' \<and> is_authenticated (user r))"
    and qb: "\<not> (truthy (query_params r ''qty'') \<and> truthy (query_params r ''by_serverid''))"
    and nn: "\<forall>q n. query_params r ''qty'' = Some q \<longrightarrow> p q = Some n \<longrightarrow> 0 \<le> n"
  shows "fst (list p r (new_view db)) = spec_handle p r db"
proof (cases "query_params r ''by_user'' = Some ''true''")
  case True
  with m have "\<not> is_authenticated (user r)" by simp
  with True show ?thesis
    by (simp add: list_raises_unauthenticated spec_handle_def Let_def)
next
  case bu: False
  then have auth: "\<not> (query_params r ''by_user'' = Some ''true''
                       \<and> \<not> is_authenticated (user r))"
    by simp
  show ?thesis
  proof (cases "truthy (query_params r ''qty'')")
    case True
    then obtain q where q: "query_params r ''qty'' = Some q" "q \<noteq> []"
      by (cases "query_params r ''qty''") auto
    from True qb have nb: "\<not> truthy (query_params r ''by_serverid'')" by simp
    then have sb: "spec_by_serverid p (query_params r ''by_serverid'') ws = Inr ws" for ws
      by (cases "query_params r ''by_serverid''") (simp_all add: spec_by_serverid_def)
    show ?thesis
    proof (cases "p q")
      case None
      with auth q bu show ?thesis
        by (simp add: list_front tail_parse_error spec_handle_def spec_truncate_def Let_def)
    next
      case (Some n)
      with nn q have "0 \<le> n" by simp
      with auth q Some nb bu sb show ?thesis
        using list_sliced [where p = p and r = r and q = q and n = n and db = db]
        by (simp add: spec_handle_def spec_truncate_def fetch_prepared take_map Let_def)
    qed
  next
    case nq: False
    then have st: "spec_truncate p (query_params r ''qty'') ws = Inr ws" for ws
      by (cases "query_params r ''qty''") (simp_all add: spec_truncate_def)
    show ?thesis
    proof (cases "truthy (query_params r ''by_serverid'')")
      case True
      then obtain b where b: "query_params r ''by_serverid'' = Some b" "b \<noteq> []"
        by (cases "query_params r ''by_serverid''") auto
      show ?thesis
      proof (cases "p b")
        case None
        with auth nq b bu st show ?thesis
          by (simp add: list_front tail_id_parse_error spec_handle_def spec_by_serverid_def Let_def)
      next
        case (Some i)
        with auth nq b bu st show ?thesis
          by (simp add: list_front tail_id spec_handle_def spec_by_serverid_def Let_def
              fetch_prepared_id fetch_prepared)
      qed
    next
      case False
      then have sb: "spec_by_serverid p (query_params r ''by_serverid'') ws = Inr ws" for ws
        by (cases "query_params r ''by_serverid''") (simp_all add: spec_by_serverid_def)
      from auth nq False bu st sb show ?thesis
        by (simp add: list_plain spec_handle_def fetch_prepared Let_def)
    qed
  qed
qed

text \<open>
  C6 says that the outcome of every request is that of the eight steps in their
  order. With \<^verbatim>\<open>by_user=true\<close> from user 7 the steps keep the one server user 7 is
  a member of; the method returns all three, because its membership step never
  filters.
\<close>

theorem list_differs_from_spec_order:
  "fst (list dec_int \<lparr>query_params = [''by_user'' \<mapsto> ''true''], user = User 7\<rparr>
         (new_view example_servers)) =
     Inr [\<lparr>view_id = 1, view_name = ''lobby'', view_category = ''gaming'',
            view_num_members = None\<rparr>,
          \<lparr>view_id = 2, view_name = ''raid'', view_category = ''gaming'',
            view_num_members = None\<rparr>,
          \<lparr>view_id = 3, view_name = ''jazz'', view_category = ''music'',
            view_num_members = None\<rparr>]
   \<and> spec_handle dec_int \<lparr>query_params = [''by_user'' \<mapsto> ''true''], user = User 7\<rparr>
         example_servers =
     Inr [\<lparr>view_id = 1, view_name = ''lobby'', view_category = ''gaming'',
            view_num_members = None\<rparr>]"
  by (simp add: spec_handle_def spec_truncate_def spec_by_serverid_def run_defs example_defs)

text \<open>
  The second difference: with \<^verbatim>\<open>qty=2\<close> and \<^verbatim>\<open>by_serverid=1\<close> the steps of the
  specification keep server 1 out of the first two records; in the method the
  filter on the sliced query raises.
\<close>

lemma list_qty_by_serverid_example:
  "fst (list dec_int
         \<lparr>query_params = [''qty'' \<mapsto> ''2'', ''by_serverid'' \<mapsto> ''1''], user = AnonymousUser\<rparr>
         (new_view example_servers)) = Inl FilterAfterSlice
   \<and> spec_handle dec_int
         \<lparr>query_params = [''qty'' \<mapsto> ''2'', ''by_serverid'' \<mapsto> ''1''], user = AnonymousUser\<rparr>
         example_servers =
     Inr [\<lparr>view_id = 1, view_name = ''lobby'', view_category = ''gaming'',
            view_num_members = None\<rparr>]"
  by (simp add: spec_handle_def spec_truncate_def spec_by_serverid_def run_defs example_defs)

subsection \<open>Truncation\<close>

text \<open>
  What the method does with a \<^verbatim>\<open>qty\<close> that parses as \<open>n \<ge> 0\<close> when \<^verbatim>\<open>by_user\<close> is not
  \<^verbatim>\<open>true\<close> and \<^verbatim>\<open>by_serverid\<close> is absent or empty: it returns a sequence, and its
  length is the minimum of \<open>n\<close> and the number of stored records of the category
  (of all stored records when \<^verbatim>\<open>category\<close> is absent or empty).
\<close>

lemma list_qty_takes_first:
  assumes "query_params r ''qty'' = Some q" "q \<noteq> []" "p q = Some n" "0 \<le> n"
    and "query_params r ''by_user'' \<noteq> Some ''true''"
    and "\<not> truthy (query_params r ''by_serverid'')"
  shows "\<exists>vs. fst (list p r (new_view db)) = Inr vs
          \<and> length vs =
              min (nat n)
                (length (case query_params r ''category'' of
                           None \<Rightarrow> db
                         | Some c \<Rightarrow>
                             if c \<noteq> [] then filter (\<lambda>s. category s = c) db else db))"
  using assms list_sliced [where p = p and r = r and q = q and n = n and db = db]
  by (simp add: fetch_prepared min.commute)

text \<open>
  C5 says that with a \<^verbatim>\<open>qty\<close> that parses as \<open>n \<ge> 0\<close> the length of the returned
  sequence is the minimum of \<open>n\<close> and the number of records that match the other
  filters. With \<^verbatim>\<open>by_user=true\<close> and \<^verbatim>\<open>qty=2\<close> from user 9, who is a member of no
  stored server, no record matches and the steps of the specification return the
  empty sequence; the method returns two records, because its membership step
  never filters.
\<close>

theorem list_qty_exceeds_matching_count:
  "dec_int ''2'' = Some 2
   \<and> fst (list dec_int
       \<lparr>query_params = [''by_user'' \<mapsto> ''true'', ''qty'' \<mapsto> ''2''], user = User 9\<rparr>
       (new_view example_servers)) =
       Inr [\<lparr>view_id = 1, view_name = ''lobby'', view_category = ''gaming'',
              view_num_members = None\<rparr>,
            \<lparr>view_id = 2, view_name = ''raid'', view_category = ''gaming'',
              view_num_members = None\<rparr>]
   \<and> length (filter (\<lambda>s. 9 |\<in>| member s) example_servers) = 0
   \<and> spec_handle dec_int
       \<lparr>query_params = [''by_user'' \<mapsto> ''true'', ''qty'' \<mapsto> ''2''], user = User 9\<rparr>
       example_servers = Inr []"
  by (simp add: spec_handle_def spec_truncate_def spec_by_serverid_def run_defs example_defs)

text \<open>
  The second way the length differs: with \<^verbatim>\<open>qty=5\<close> and \<^verbatim>\<open>by_serverid=1\<close> one stored
  record matches, so the length should be 1; the method returns no sequence, the
  filter on the sliced query raises.
\<close>

lemma list_qty_by_serverid_no_sequence:
  "dec_int ''5'' = Some 5
   \<and> length (filter (\<lambda>s. server_id s = 1) example_servers) = 1
   \<and> fst (list dec_int
       \<lparr>query_params = [''qty'' \<mapsto> ''5'', ''by_serverid'' \<mapsto> ''1''], user = AnonymousUser\<rparr>
       (new_view example_servers)) = Inl FilterAfterSlice"
  by (simp add: run_defs example_defs)

end
